theory Spec2Isabelle
  imports Complex_Main
begin

section \<open>Numbers\<close>

text \<open>
  The script computes with JavaScript numbers. Every quantity the distribution engine
  handles is an integer count (\<^verbatim>\<open>parseInt\<close> of a form field, or the result of
  \<^verbatim>\<open>Math.round\<close>), so counts are modelled as \<^typ>\<open>int\<close>, and a quotient or a gauge
  as an exact \<^typ>\<open>real\<close>. A quotient \<open>p / q\<close> of integers that is not a half-integer is at
  least \<open>1 / (2 * q)\<close> away from one, so for operands well below \<open>2^52\<close> the double nearest
  to it lies on the same side of every half-integer, and \<^verbatim>\<open>Math.round\<close> of the double and
  of the exact quotient agree; beyond that range, and for the gauge arithmetic of the form
  handlers, the model idealises the rounding of doubles.
  \<open>NaN\<close> is modelled where the code tests for it (a form field of type \<open>_ option\<close>, with
  \<open>None\<close> for \<open>NaN\<close>); infinities are left out.

  \<^verbatim>\<open>Math.round(x)\<close> is the integer nearest to \<open>x\<close>, a tie going up.
\<close>

definition js_round :: "real \<Rightarrow> int" where
  "js_round x = \<lfloor>x + 1 / 2\<rfloor>"

text \<open>
  The remainder operator \<^verbatim>\<open>a % b\<close> on integers truncates: the result has the sign of
  the dividend. (For \<open>b = 0\<close> JavaScript gives \<open>NaN\<close>; the only use below is guarded by
  \<open>b \<noteq> 0\<close>.)
\<close>

definition js_rem :: "int \<Rightarrow> int \<Rightarrow> int" where
  "js_rem a b = sgn a * (\<bar>a\<bar> mod \<bar>b\<bar>)"


text \<open>The decimal text of an integer, as a template literal \<^verbatim>\<open>${n}\<close> prints it.\<close>

function string_of_nat :: "nat \<Rightarrow> string" where
  "string_of_nat n =
     (if n < 10 then [''0123456789'' ! n]
      else string_of_nat (n div 10) @ [''0123456789'' ! (n mod 10)])"
  by pat_completeness auto
termination
  by (relation "measure (\<lambda>n. n)") auto

declare string_of_nat.simps [simp del]

definition string_of_int :: "int \<Rightarrow> string" where
  "string_of_int k = (if k < 0 then ''-'' @ string_of_nat (nat (- k)) else string_of_nat (nat k))"

text \<open>\<^verbatim>\<open>parts.join(sep)\<close>\<close>

fun js_join :: "string \<Rightarrow> string list \<Rightarrow> string" where
  "js_join sep [] = []"
| "js_join sep [x] = x"
| "js_join sep (x # y # ys) = x @ sep @ js_join sep (y # ys)"

section \<open>The rational reducer\<close>

text \<open>
  \<^verbatim>\<open>
  function gcd(a, b) {
      a = Math.round(a);
      b = Math.round(b);
      while (b !== 0) {
          const temp = b;
          b = a % b;
          a = temp;
      }
      return a;
  }
  \<close>
\<close>

function gcd_loop :: "int \<Rightarrow> int \<Rightarrow> int" where
  "gcd_loop a b = (if b \<noteq> 0 then (let temp = b in gcd_loop temp (js_rem a b)) else a)"
  by pat_completeness auto
termination
proof (relation "measure (\<lambda>(a, b). nat \<bar>b\<bar>)")
  show "wf (measure (\<lambda>(a :: int, b :: int). nat \<bar>b\<bar>))"
    by simp
next
  fix a b temp :: int
  assume "b \<noteq> 0" and "temp = b"
  then have bound: "\<bar>a\<bar> mod \<bar>b\<bar> < \<bar>b\<bar>" and nonneg: "0 \<le> \<bar>a\<bar> mod \<bar>b\<bar>"
    by simp_all
  have "\<bar>js_rem a b\<bar> \<le> \<bar>a\<bar> mod \<bar>b\<bar>"
    using nonneg by (cases "a = 0") (simp_all add: js_rem_def abs_mult)
  with bound have "\<bar>js_rem a b\<bar> < \<bar>b\<bar>"
    by linarith
  then show "((temp, js_rem a b), (a, b)) \<in> measure (\<lambda>(a, b). nat \<bar>b\<bar>)"
    by simp
qed

declare gcd_loop.simps [simp del]

definition gcd_js :: "real \<Rightarrow> real \<Rightarrow> int" where
  "gcd_js a b = gcd_loop (js_round a) (js_round b)"

section \<open>The even-distribution generator\<close>

text \<open>
  The integer-count revision of the script:
  \<^verbatim>\<open>
  function generateEvenDistribution(totalStitches, totalRows) {
      const result = [];
      let stitchesPlaced = 0;
      for (let row = 0; row < totalRows; row++) {
          const expectedStitches = Math.round((row + 1) * totalStitches / totalRows);
          const stitchesThisRow = expectedStitches - stitchesPlaced;
          result.push(stitchesThisRow);
          stitchesPlaced = expectedStitches;
      }
      return result;
  }
  \<close>
  The loop is a recursive function of the loop variable \<open>row\<close>, the running
  \<open>stitchesPlaced\<close> and the array built so far. Inside the loop \<open>0 \<le> row < totalRows\<close>,
  so the division is never by zero.
\<close>

function generateEvenDistribution_loop :: "int \<Rightarrow> int \<Rightarrow> int \<Rightarrow> int \<Rightarrow> int list \<Rightarrow> int list" where
  "generateEvenDistribution_loop totalStitches totalRows row stitchesPlaced result =
     (if row < totalRows then
        (let expectedStitches = js_round (of_int ((row + 1) * totalStitches) / of_int totalRows);
             stitchesThisRow = expectedStitches - stitchesPlaced
         in generateEvenDistribution_loop totalStitches totalRows (row + 1) expectedStitches
              (result @ [stitchesThisRow]))
      else result)"
  by pat_completeness auto
termination
  by (relation "measure (\<lambda>(totalStitches, totalRows, row, stitchesPlaced, result). nat (totalRows - row))") auto

declare generateEvenDistribution_loop.simps [simp del]

definition generateEvenDistribution :: "int \<Rightarrow> int \<Rightarrow> int list" where
  "generateEvenDistribution totalStitches totalRows =
     generateEvenDistribution_loop totalStitches totalRows 0 0 []"

text \<open>
  The cumulative target: the value of \<open>expectedStitches\<close> in the round that completes
  \<open>k\<close> rows (\<open>k = row + 1\<close>). It names the expression of the loop body in the
  statements below.
\<close>

definition expected_at :: "int \<Rightarrow> int \<Rightarrow> int \<Rightarrow> int" where
  "expected_at totalStitches totalRows k = js_round (of_int (k * totalStitches) / of_int totalRows)"
  for totalStitches totalRows

text \<open>
  The boolean revision of the script places at most one stitch per row:
  \<^verbatim>\<open>
  function generateEvenDistribution(totalStitches, totalRows) {
      const result = [];
      let stitchesPlaced = 0;
      for (let row = 0; row < totalRows; row++) {
          const expectedStitches = Math.round((row + 1) * totalStitches / totalRows);
          if (expectedStitches > stitchesPlaced) {
              result.push(true);
              stitchesPlaced++;
          } else {
              result.push(false);
          }
      }
      return result;
  }
  \<close>
\<close>

function generateEvenDistribution_bool_loop :: "int \<Rightarrow> int \<Rightarrow> int \<Rightarrow> int \<Rightarrow> bool list \<Rightarrow> bool list" where
  "generateEvenDistribution_bool_loop totalStitches totalRows row stitchesPlaced result =
     (if row < totalRows then
        (let expectedStitches = js_round (of_int ((row + 1) * totalStitches) / of_int totalRows)
         in if expectedStitches > stitchesPlaced
            then generateEvenDistribution_bool_loop totalStitches totalRows (row + 1)
                   (stitchesPlaced + 1) (result @ [True])
            else generateEvenDistribution_bool_loop totalStitches totalRows (row + 1)
                   stitchesPlaced (result @ [False]))
      else result)"
  by pat_completeness auto
termination
  by (relation "measure (\<lambda>(totalStitches, totalRows, row, stitchesPlaced, result). nat (totalRows - row))") auto

declare generateEvenDistribution_bool_loop.simps [simp del]

definition generateEvenDistribution_bool :: "int \<Rightarrow> int \<Rightarrow> bool list" where
  "generateEvenDistribution_bool totalStitches totalRows =
     generateEvenDistribution_bool_loop totalStitches totalRows 0 0 []"

section \<open>The run-length describer\<close>

text \<open>
  \<^verbatim>\<open>
  function describeDistribution(totalStitches, totalRows) {
      const distribution = generateEvenDistribution(totalStitches, totalRows);
      const runs = [];
      let currentCount = distribution[0];
      let runLength = 1;
      for (let i = 1; i < distribution.length; i++) {
          if (distribution[i] === currentCount) {
              runLength++;
          } else {
              runs.push({ stitchesPerRow: currentCount, rows: runLength });
              currentCount = distribution[i];
              runLength = 1;
          }
      }
      runs.push({ stitchesPerRow: currentCount, rows: runLength });
      ...
      return { distribution, runs, runCounts, totalStitches, totalRows };
  }
  \<close>
  The boolean revision has the same scan over a boolean array, its run fields named
  \<^verbatim>\<open>pickup\<close> and \<^verbatim>\<open>count\<close>; the scan is therefore modelled once, for any entry type.
  \<^verbatim>\<open>distribution[0]\<close> of an empty array is \<^verbatim>\<open>undefined\<close>, so the value of a run is an
  \<open>option\<close>. The tally \<^verbatim>\<open>runCounts\<close>, which no caller reads, is left out.
\<close>

record 'a run =
  stitchesPerRow :: "'a option"
  rows :: nat




record 'a distribution_info =
  distribution :: "'a list"
  runs :: "'a run list"
  totalStitches :: int
  totalRows :: int



section \<open>The repeat-cycle reducer\<close>

text \<open>
  \<^verbatim>\<open>
  function findMinimalRepeat(totalStitches, totalRows) {
      const g = gcd(totalStitches, totalRows);
      const cycleStitches = totalStitches / g;
      const cycleRows = totalRows / g;
      const pattern = generateEvenDistribution(cycleStitches, cycleRows);
      const sequences = [];
      let i = 0;
      while (i < pattern.length) {
          const stitchCount = pattern[i];
          let rows = 0;
          while (i < pattern.length && pattern[i] === stitchCount) {
              rows++;
              i++;
          }
          sequences.push({ stitches: stitchCount, rows });
      }
      let description;
      if (sequences.length === 1) {
          const s = sequences[0];
          if (s.stitches === 0) {
              description = `Skip ${s.rows} row${s.rows !== 1 ? 's' : ''}`;
          } else if (s.stitches === 1) {
              description = `Pick up 1 from each of ${s.rows} row${s.rows !== 1 ? 's' : ''}`;
          } else {
              description = `Pick up ${s.stitches} from each of ${s.rows} row${s.rows !== 1 ? 's' : ''}`;
          }
      } else {
          const parts = sequences.map(s => {
              if (s.stitches === 0) {
                  return `skip ${s.rows}`;
              } else if (s.rows === 1) {
                  return `pick up ${s.stitches}`;
              } else {
                  return `pick up ${s.stitches} [times] ${s.rows} rows`;
              }
          });
          description = parts.join(' [arrow] ');
      }
      return { cycleStitches, cycleRows, repeats: g, pattern, sequences, description };
  }
  \<close>
  where \<^verbatim>\<open>[times]\<close> is the multiplication sign U+00D7 and \<^verbatim>\<open>[arrow]\<close> the rightwards arrow
  U+2192; a \<^typ>\<open>string\<close> holds them as their UTF-8 bytes.
\<close>

record sequence =
  stitches :: int
  rows :: nat

text \<open>The inner loop: from index \<open>i\<close>, count the entries equal to \<open>stitchCount\<close>.\<close>

function findMinimalRepeat_run :: "int list \<Rightarrow> int \<Rightarrow> nat \<Rightarrow> nat \<Rightarrow> nat \<times> nat" where
  "findMinimalRepeat_run pattern stitchCount rows i =
     (if i < length pattern \<and> pattern ! i = stitchCount
      then findMinimalRepeat_run pattern stitchCount (rows + 1) (i + 1)
      else (rows, i))"
  for rows
  by pat_completeness auto
termination
  by (relation "measure (\<lambda>(pattern, stitchCount, rows, i). length pattern - i)") auto

declare findMinimalRepeat_run.simps [simp del]

text \<open>The outer loop; each round consumes at least the entry at \<open>i\<close>.\<close>

function findMinimalRepeat_sequences :: "int list \<Rightarrow> nat \<Rightarrow> sequence list \<Rightarrow> sequence list" where
  "findMinimalRepeat_sequences pattern i sequences =
     (if i < length pattern then
        (let stitchCount = pattern ! i;
             scanned = findMinimalRepeat_run pattern stitchCount 0 i
         in findMinimalRepeat_sequences pattern (snd scanned)
              (sequences @ [\<lparr>stitches = stitchCount, rows = fst scanned\<rparr>]))
      else sequences)"
  by pat_completeness auto
termination
proof (relation "measure (\<lambda>(pattern, i, sequences). length pattern - i)")
  show "wf (measure (\<lambda>(pattern :: int list, i :: nat, sequences :: sequence list). length pattern - i))"
    by simp
next
  fix pattern :: "int list" and i :: nat and sequences :: "sequence list"
    and stitchCount :: int and scanned :: "nat \<times> nat"
  assume inside: "i < length pattern" and count: "stitchCount = pattern ! i"
    and scanned: "scanned = findMinimalRepeat_run pattern stitchCount 0 i"
  have mono: "j \<le> snd (findMinimalRepeat_run pattern c r j)" for c r j
  proof (induction pattern c r j rule: findMinimalRepeat_run.induct)
    case (1 pattern stitchCount rows i)
    then show ?case
      by (subst findMinimalRepeat_run.simps) (auto simp: Suc_leD)
  qed
  have "findMinimalRepeat_run pattern stitchCount 0 i
          = findMinimalRepeat_run pattern stitchCount 1 (i + 1)"
    using inside count by (subst findMinimalRepeat_run.simps) simp
  with mono [of "i + 1" stitchCount 1] scanned have "i < snd scanned"
    by simp
  with inside show "((pattern, snd scanned, sequences @ [\<lparr>stitches = stitchCount, rows = fst scanned\<rparr>]),
      (pattern, i, sequences)) \<in> measure (\<lambda>(pattern, i, sequences). length pattern - i)"
    by simp
qed

declare findMinimalRepeat_sequences.simps [simp del]

definition plural_s :: "nat \<Rightarrow> string" where
  "plural_s n = (if n \<noteq> 1 then ''s'' else [])"

definition times_sign :: string where
  "times_sign = [CHR 0xC3, CHR 0x97]"

definition arrow_separator :: string where
  "arrow_separator = [CHR 0x20, CHR 0xE2, CHR 0x86, CHR 0x92, CHR 0x20]"

definition findMinimalRepeat_part :: "sequence \<Rightarrow> string" where
  "findMinimalRepeat_part s =
     (if stitches s = 0 then ''skip '' @ string_of_nat (sequence.rows s)
      else if sequence.rows s = 1 then ''pick up '' @ string_of_int (stitches s)
      else ''pick up '' @ string_of_int (stitches s) @ '' '' @ times_sign @ '' ''
             @ string_of_nat (sequence.rows s) @ '' rows'')"

definition findMinimalRepeat_description :: "sequence list \<Rightarrow> string" where
  "findMinimalRepeat_description sequences =
     (if length sequences = 1 then
        (let s = sequences ! 0 in
         if stitches s = 0 then
           ''Skip '' @ string_of_nat (sequence.rows s) @ '' row'' @ plural_s (sequence.rows s)
         else if stitches s = 1 then
           ''Pick up 1 from each of '' @ string_of_nat (sequence.rows s) @ '' row''
             @ plural_s (sequence.rows s)
         else
           ''Pick up '' @ string_of_int (stitches s) @ '' from each of ''
             @ string_of_nat (sequence.rows s) @ '' row'' @ plural_s (sequence.rows s))
      else js_join arrow_separator (map findMinimalRepeat_part sequences))"
  for sequences

record minimal_repeat =
  cycleStitches :: int
  cycleRows :: int
  repeats :: int
  pattern :: "int list"
  sequences :: "sequence list"
  description :: string

text \<open>
  The two quotients are exact, because the result of \<^verbatim>\<open>gcd\<close> divides both of its
  arguments. When both arguments are zero the divisor is zero and JavaScript yields
  \<open>NaN\<close> fields; the model returns \<open>None\<close> there.
\<close>

definition findMinimalRepeat :: "int \<Rightarrow> int \<Rightarrow> minimal_repeat option" where
  "findMinimalRepeat totalStitches totalRows =
     (let g = gcd_js (of_int totalStitches) (of_int totalRows) in
      if g = 0 then None
      else
        (let cycleStitches = totalStitches div g;
             cycleRows = totalRows div g;
             pattern = generateEvenDistribution cycleStitches cycleRows;
             sequences = findMinimalRepeat_sequences pattern 0 []
         in Some \<lparr>cycleStitches = cycleStitches, cycleRows = cycleRows, repeats = g,
                  pattern = pattern, sequences = sequences,
                  description = findMinimalRepeat_description sequences\<rparr>))"
  for totalStitches totalRows

section \<open>The pick-up form handler\<close>








section \<open>Evaluation of the arithmetic\<close>

text \<open>On a quotient of integers, \<open>js_round\<close> is an integer division.\<close>

lemma js_round_quotient:
  assumes "0 < q"
  shows "js_round (of_int p / of_int q) = (2 * p + q) div (2 * q)"
proof -
  have "(of_int p / of_int q + 1 / 2 :: real) = of_int (2 * p + q) / of_int (2 * q)"
    using assms by (simp add: field_simps)
  then show ?thesis
    unfolding js_round_def by (simp only: floor_divide_of_int_eq)
qed

lemma js_round_of_int [simp]: "js_round (of_int k) = k"
  by (simp add: js_round_def)

section \<open>The generator in closed form\<close>

text \<open>
  Each round of the loop appends the difference of two consecutive cumulative targets,
  so the result is the list of these differences.
\<close>

lemma expected_at_0 [simp]: "expected_at ts tr 0 = 0"
  by (simp add: expected_at_def js_round_def)

lemma expected_at_full: "tr \<noteq> 0 \<Longrightarrow> expected_at ts tr tr = ts"
  by (simp add: expected_at_def)

lemma generateEvenDistribution_loop_closed:
  "int n \<le> tr \<Longrightarrow>
   generateEvenDistribution_loop ts tr (tr - int n) (expected_at ts tr (tr - int n)) res =
     res @ map (\<lambda>k. expected_at ts tr (tr - int n + int k + 1) - expected_at ts tr (tr - int n + int k)) [0..<n]"
proof (induction n arbitrary: res)
  case 0
  then show ?case
    by (subst generateEvenDistribution_loop.simps) simp
next
  case (Suc n)
  let ?row = "tr - int (Suc n)"
  have next_row: "?row + 1 = tr - int n"
    by simp
  have "generateEvenDistribution_loop ts tr ?row (expected_at ts tr ?row) res =
        generateEvenDistribution_loop ts tr (tr - int n) (expected_at ts tr (tr - int n))
          (res @ [expected_at ts tr (?row + 1) - expected_at ts tr ?row])"
    by (subst generateEvenDistribution_loop.simps) (simp add: expected_at_def Let_def)
  also have "\<dots> = (res @ [expected_at ts tr (?row + 1) - expected_at ts tr ?row]) @
      map (\<lambda>k. expected_at ts tr (tr - int n + int k + 1) - expected_at ts tr (tr - int n + int k)) [0..<n]"
    using Suc.prems by (intro Suc.IH) simp
  also have "\<dots> = res @ map (\<lambda>k. expected_at ts tr (?row + int k + 1) - expected_at ts tr (?row + int k)) [0..<Suc n]"
    by (simp only: map_upt_Suc) (simp add: algebra_simps)
  finally show ?case .
qed

lemma generateEvenDistribution_closed:
  "generateEvenDistribution ts tr =
     map (\<lambda>k. expected_at ts tr (int k + 1) - expected_at ts tr (int k)) [0..<nat tr]"
proof (cases "0 \<le> tr")
  case True
  then show ?thesis
    using generateEvenDistribution_loop_closed [of "nat tr" tr ts "[]"]
    by (simp add: generateEvenDistribution_def)
next
  case False
  then show ?thesis
    by (simp add: generateEvenDistribution_def generateEvenDistribution_loop.simps)
qed


lemma sum_list_differences:
  fixes f :: "nat \<Rightarrow> int"
  shows "sum_list (map (\<lambda>k. f (Suc k) - f k) [0..<n]) = f n - f 0"
  by (induction n) simp_all

lemma sum_list_generateEvenDistribution:
  assumes "0 < tr"
  shows "sum_list (generateEvenDistribution ts tr) = ts"
proof -
  have "sum_list (generateEvenDistribution ts tr)
      = sum_list (map (\<lambda>k. expected_at ts tr (int (Suc k)) - expected_at ts tr (int k)) [0..<nat tr])"
    by (simp add: generateEvenDistribution_closed add.commute)
  also have "\<dots> = expected_at ts tr (int (nat tr)) - expected_at ts tr (int 0)"
    by (rule sum_list_differences)
  also have "\<dots> = ts"
    using assms by (simp add: expected_at_full)
  finally show ?thesis .
qed

section \<open>Conservation\<close>



section \<open>The distribution of 3 stitches over 8 rows\<close>

text \<open>
  Claim C4, as amended. The cumulative targets \<open>round (3 * (i + 1) / 8)\<close> for
  \<open>i = 0, \<dots>, 7\<close> are \<open>0, 1, 1, 2, 2, 2, 3, 3\<close> (the fourth is \<open>round 1.5 = 2\<close>), so
  \<^verbatim>\<open>generateEvenDistribution(3, 8)\<close> returns \<open>[0, 1, 0, 1, 0, 0, 1, 0]\<close>.
\<close>

theorem generateEvenDistribution_3_8:
  "generateEvenDistribution 3 8 = [0, 1, 0, 1, 0, 0, 1, 0]"
  by (simp add: generateEvenDistribution_def generateEvenDistribution_loop.simps js_round_def)

text \<open>
  Claim C4 as stated names the sequence \<open>[0, 1, 0, 0, 1, 0, 0, 1]\<close>; the generator does not
  return it.
\<close>

theorem generateEvenDistribution_3_8_counterexample:
  "generateEvenDistribution 3 8 \<noteq> [0, 1, 0, 0, 1, 0, 0, 1]"
  by (simp add: generateEvenDistribution_def generateEvenDistribution_loop.simps js_round_def)

section \<open>Evenness\<close>

text \<open>
  Two consecutive cumulative targets differ by \<open>items div slots\<close> or by one more.
\<close>

lemma expected_at_div:
  "0 < tr \<Longrightarrow> expected_at ts tr k = (2 * (k * ts) + tr) div (2 * tr)"
  unfolding expected_at_def by (rule js_round_quotient)

lemma expected_at_step_bounds:
  assumes "0 < tr"
  shows "ts div tr \<le> expected_at ts tr (k + 1) - expected_at ts tr k"
    and "expected_at ts tr (k + 1) - expected_at ts tr k \<le> ts div tr + 1"
proof -
  define A where "A = 2 * (k * ts) + tr"
  define r where "r = ts mod tr"
  define d where "d = ts div tr"
  have r: "0 \<le> r" "r < tr"
    using assms by (simp_all add: r_def)
  have ts: "ts = tr * d + r"
    by (simp add: r_def d_def)
  have now: "expected_at ts tr k = A div (2 * tr)"
    using assms by (simp add: expected_at_div A_def)
  have "2 * ((k + 1) * ts) + tr = (A + 2 * r) + d * (2 * tr)"
    by (simp add: A_def ts algebra_simps)
  then have "expected_at ts tr (k + 1) = ((A + 2 * r) + d * (2 * tr)) div (2 * tr)"
    using assms by (simp only: expected_at_div)
  also have "\<dots> = (A + 2 * r) div (2 * tr) + d"
    using assms by simp
  finally have after: "expected_at ts tr (k + 1) = (A + 2 * r) div (2 * tr) + d" .
  have "A div (2 * tr) \<le> (A + 2 * r) div (2 * tr)"
    using assms r by (intro zdiv_mono1) simp_all
  moreover have "(A + 2 * r) div (2 * tr) \<le> (A + 2 * tr) div (2 * tr)"
    using assms r by (intro zdiv_mono1) simp_all
  moreover have "(A + 2 * tr) div (2 * tr) = A div (2 * tr) + 1"
    using assms by simp
  ultimately show "ts div tr \<le> expected_at ts tr (k + 1) - expected_at ts tr k"
    and "expected_at ts tr (k + 1) - expected_at ts tr k \<le> ts div tr + 1"
    unfolding now after d_def by linarith+
qed




section \<open>The rational reducer computes the greatest common divisor\<close>

lemma gcd_js_rem:
  assumes "b \<noteq> 0"
  shows "gcd b (js_rem a b) = gcd a b"
proof -
  have "gcd b (js_rem a b) = gcd \<bar>b\<bar> (\<bar>a\<bar> mod \<bar>b\<bar>)"
    by (cases "a = 0") (simp_all add: js_rem_def sgn_if)
  also have "\<dots> = gcd \<bar>a\<bar> \<bar>b\<bar>"
    by (rule gcd_red_int [symmetric])
  finally show ?thesis
    by simp
qed

lemma abs_gcd_loop: "\<bar>gcd_loop a b\<bar> = gcd a b"
proof (induction a b rule: gcd_loop.induct)
  case (1 a b)
  show ?case
  proof (cases "b = 0")
    case True
    then show ?thesis
      by (subst gcd_loop.simps) simp
  next
    case False
    then have "\<bar>gcd_loop a b\<bar> = \<bar>gcd_loop b (js_rem a b)\<bar>"
      by (subst gcd_loop.simps) simp
    also have "\<dots> = gcd b (js_rem a b)"
      using False by (intro "1.IH") simp_all
    finally show ?thesis
      using False by (simp add: gcd_js_rem)
  qed
qed

lemma gcd_loop_nonneg: "0 \<le> a \<Longrightarrow> 0 \<le> b \<Longrightarrow> 0 \<le> gcd_loop a b"
proof (induction a b rule: gcd_loop.induct)
  case (1 a b)
  show ?case
  proof (cases "b = 0")
    case True
    with "1.prems" show ?thesis
      by (subst gcd_loop.simps) simp
  next
    case False
    have "0 \<le> js_rem a b"
      using "1.prems" False by (simp add: js_rem_def sgn_if)
    with False "1.prems" have "0 \<le> gcd_loop b (js_rem a b)"
      by (intro "1.IH") simp_all
    with False show ?thesis
      by (subst gcd_loop.simps) simp
  qed
qed

lemma gcd_loop_eq_gcd: "0 \<le> a \<Longrightarrow> 0 \<le> b \<Longrightarrow> gcd_loop a b = gcd a b"
  using abs_gcd_loop [of a b] gcd_loop_nonneg [of a b] by simp

lemma gcd_loop_zero [simp]: "gcd_loop a 0 = a"
  by (subst gcd_loop.simps) simp

text \<open>
  Claim C9, as amended. \<^verbatim>\<open>gcd(a, b)\<close> rounds both arguments; the magnitude of its result
  is the greatest common divisor of the rounded values, and \<^verbatim>\<open>gcd(a, 0)\<close> is the rounded
  \<open>a\<close>. When both rounded values are non-negative and not both zero, the result itself is
  that divisor: positive, dividing both rounded values, and no smaller than any common
  divisor.
\<close>

theorem gcd_js_contract:
  "\<bar>gcd_js a b\<bar> = gcd (js_round a) (js_round b) \<and>
   gcd_js a 0 = js_round a \<and>
   (0 \<le> js_round a \<and> 0 \<le> js_round b \<and> (js_round a \<noteq> 0 \<or> js_round b \<noteq> 0) \<longrightarrow>
      0 < gcd_js a b \<and> gcd_js a b dvd js_round a \<and> gcd_js a b dvd js_round b \<and>
      (\<forall>d. d dvd js_round a \<and> d dvd js_round b \<longrightarrow> d \<le> gcd_js a b))"
proof (intro conjI impI)
  show "\<bar>gcd_js a b\<bar> = gcd (js_round a) (js_round b)"
    by (simp add: gcd_js_def abs_gcd_loop)
  show "gcd_js a 0 = js_round a"
    by (simp add: gcd_js_def js_round_def)
next
  assume range: "0 \<le> js_round a \<and> 0 \<le> js_round b \<and> (js_round a \<noteq> 0 \<or> js_round b \<noteq> 0)"
  then have eq: "gcd_js a b = gcd (js_round a) (js_round b)"
    by (simp add: gcd_js_def gcd_loop_eq_gcd)
  from range have pos: "0 < gcd (js_round a) (js_round b)"
    by auto
  show "0 < gcd_js a b"
    using pos by (simp only: eq)
  show "gcd_js a b dvd js_round a" and "gcd_js a b dvd js_round b"
    by (simp_all only: eq gcd_dvd1 gcd_dvd2)
  show "\<forall>d. d dvd js_round a \<and> d dvd js_round b \<longrightarrow> d \<le> gcd_js a b"
  proof (intro allI impI)
    fix d
    assume "d dvd js_round a \<and> d dvd js_round b"
    then have "d dvd gcd (js_round a) (js_round b)"
      by simp
    with pos have "d \<le> gcd (js_round a) (js_round b)"
      by (rule_tac zdvd_imp_le) simp_all
    then show "d \<le> gcd_js a b"
      by (simp only: eq)
  qed
qed

theorem gcd_js_contract_witness:
  "0 \<le> js_round (88 / 5) \<and> 0 \<le> js_round 12 \<and> js_round (88 / 5) \<noteq> 0 \<and>
   \<bar>gcd_js (88 / 5) 12\<bar> = gcd (js_round (88 / 5)) (js_round 12) \<and>
   gcd_js (88 / 5) 0 = js_round (88 / 5) \<and>
   0 < gcd_js (88 / 5) 12 \<and> gcd_js (88 / 5) 12 dvd js_round (88 / 5) \<and>
   gcd_js (88 / 5) 12 dvd js_round 12 \<and> 6 \<le> gcd_js (88 / 5) 12"
proof -
  have rounded: "js_round (88 / 5) = 18" "js_round 12 = 12"
    by (simp_all add: js_round_def)
  then have signs: "0 \<le> js_round (88 / 5)" "0 \<le> js_round 12" "js_round (88 / 5) \<noteq> 0"
    by simp_all
  have common: "(6::int) dvd js_round (88 / 5) \<and> (6::int) dvd js_round 12"
    by (simp add: rounded)
  from signs common gcd_js_contract [of "88 / 5" 12] show ?thesis
    by blast
qed

text \<open>
  Claim C9 as stated promises a positive result for all arguments that do not both round
  to zero, and \<^verbatim>\<open>gcd(a, 0) = a\<close>. The remainder takes the sign of the dividend, so a
  negative argument can give a negative result, and a fractional \<open>a\<close> is rounded.
\<close>

theorem gcd_js_counterexample:
  "gcd_js 4 (- 6) = - 2 \<and> gcd_js (5 / 2) 0 = 3"
  by (simp add: gcd_js_def gcd_loop.simps js_round_def js_rem_def)

section \<open>The repeat cycle\<close>






section \<open>The repeat-cycle reducer's result\<close>

text \<open>
  On counts (non-negative integers) the rounding in \<^verbatim>\<open>gcd\<close> does nothing and the loop
  computes the greatest common divisor.
\<close>

lemma gcd_js_of_int:
  "0 \<le> a \<Longrightarrow> 0 \<le> b \<Longrightarrow> gcd_js (of_int a) (of_int b) = gcd a b"
  by (simp add: gcd_js_def gcd_loop_eq_gcd)

lemma findMinimalRepeat_fields:
  assumes "0 \<le> items" and "0 < slots"
  obtains r where "findMinimalRepeat items slots = Some r"
    and "repeats r = gcd items slots"
    and "cycleStitches r = items div gcd items slots"
    and "cycleRows r = slots div gcd items slots"
    and "pattern r = generateEvenDistribution (cycleStitches r) (cycleRows r)"
proof -
  have "gcd items slots \<noteq> 0"
    using assms by simp
  then show thesis
    using assms that by (simp add: findMinimalRepeat_def gcd_js_of_int Let_def)
qed

text \<open>
  Claim C5. For integers \<open>items \<ge> 0\<close> and \<open>slots > 0\<close>, \<^verbatim>\<open>findMinimalRepeat(items, slots)\<close>
  returns \<open>repeats = g\<close>, \<open>cycleStitches = items / g\<close> and \<open>cycleRows = slots / g\<close> for
  \<open>g = gcd(items, slots)\<close>, the greatest common divisor; both quotients are exact, and the
  two cycle numbers are coprime. For \<open>(6, 16)\<close> it returns \<open>cycleStitches = 3\<close>,
  \<open>cycleRows = 8\<close>, \<open>repeats = 2\<close>.
\<close>

theorem findMinimalRepeat_contract:
  "(0 \<le> items \<and> 0 < slots \<longrightarrow>
      (\<exists>r. findMinimalRepeat items slots = Some r \<and>
           repeats r = gcd_js (of_int items) (of_int slots) \<and>
           repeats r = gcd items slots \<and>
           cycleStitches r * repeats r = items \<and>
           cycleRows r * repeats r = slots \<and>
           cycleStitches r = items div repeats r \<and>
           cycleRows r = slots div repeats r \<and>
           coprime (cycleStitches r) (cycleRows r))) \<and>
   map_option (\<lambda>r. (cycleStitches r, cycleRows r, repeats r)) (findMinimalRepeat 6 16)
     = Some (3, 8, 2)"
proof (intro conjI impI)
  assume "0 \<le> items \<and> 0 < slots"
  then have range: "0 \<le> items" "0 < slots"
    by simp_all
  then obtain r where r: "findMinimalRepeat items slots = Some r"
    "repeats r = gcd items slots"
    "cycleStitches r = items div gcd items slots"
    "cycleRows r = slots div gcd items slots"
    by (rule findMinimalRepeat_fields)
  have nonzero: "gcd items slots \<noteq> 0"
    using range by simp
  have "coprime (items div gcd items slots) (slots div gcd items slots)"
    using range by (intro div_gcd_coprime) simp
  then show "\<exists>r. findMinimalRepeat items slots = Some r \<and>
           repeats r = gcd_js (of_int items) (of_int slots) \<and>
           repeats r = gcd items slots \<and>
           cycleStitches r * repeats r = items \<and>
           cycleRows r * repeats r = slots \<and>
           cycleStitches r = items div repeats r \<and>
           cycleRows r = slots div repeats r \<and>
           coprime (cycleStitches r) (cycleRows r)"
    using r range by (intro exI [of _ r]) (simp add: gcd_js_of_int)
next
  show "map_option (\<lambda>r. (cycleStitches r, cycleRows r, repeats r)) (findMinimalRepeat 6 16)
     = Some (3, 8, 2)"
    by (simp add: findMinimalRepeat_def gcd_js_def gcd_loop.simps js_rem_def js_round_def Let_def)
qed

theorem findMinimalRepeat_contract_witness:
  "(0::int) \<le> 9 \<and> (0::int) < 12 \<and>
   (\<exists>r. findMinimalRepeat 9 12 = Some r \<and>
        cycleStitches r * repeats r = 9 \<and> cycleRows r * repeats r = 12 \<and>
        coprime (cycleStitches r) (cycleRows r))"
proof -
  have range: "(0::int) \<le> 9 \<and> (0::int) < 12"
    by simp
  with findMinimalRepeat_contract [of 9 12] show ?thesis
    by blast
qed



section \<open>Run reconstruction\<close>





section \<open>The description of a single run of ones\<close>


text \<open>
  \<^verbatim>\<open>findMinimalRepeat(5, 5)\<close> itself describes the reduced cycle: one stitch in one row,
  repeated five times.
\<close>

lemma findMinimalRepeat_5_5:
  "map_option description (findMinimalRepeat 5 5) = Some ''Pick up 1 from each of 1 row''
   \<and> map_option repeats (findMinimalRepeat 5 5) = Some 5"
  by (simp add: findMinimalRepeat_def gcd_js_def gcd_loop.simps js_rem_def js_round_def Let_def
      generateEvenDistribution_def generateEvenDistribution_loop.simps
      findMinimalRepeat_sequences.simps findMinimalRepeat_run.simps
      findMinimalRepeat_description_def plural_s_def string_of_nat.simps)

section \<open>The two placement representations\<close>

text \<open>
  For \<open>0 \<le> totalStitches \<le> totalRows\<close> the cumulative target grows by 0 or 1 per row, so
  the counter \<open>stitchesPlaced\<close> of the boolean revision follows it exactly.
\<close>

lemma expected_at_unit_steps:
  assumes "0 < tr" and "0 \<le> ts" and "ts \<le> tr"
  shows "expected_at ts tr (k + 1) - expected_at ts tr k \<in> {0, 1}"
proof (cases "ts = tr")
  case True
  have "expected_at tr tr j = j" for j
    using assms(1) by (simp add: expected_at_def)
  with True show ?thesis
    by simp
next
  case False
  with assms have "ts div tr = 0"
    by simp
  with expected_at_step_bounds [OF assms(1), of ts k] show ?thesis
    by auto
qed

lemma generateEvenDistribution_bool_loop_closed:
  assumes "\<And>k. expected_at ts tr (k + 1) - expected_at ts tr k \<in> {0, 1}"
  shows "int n \<le> tr \<Longrightarrow>
   generateEvenDistribution_bool_loop ts tr (tr - int n) (expected_at ts tr (tr - int n)) res =
     res @ map (\<lambda>k. expected_at ts tr (tr - int n + int k + 1) > expected_at ts tr (tr - int n + int k)) [0..<n]"
proof (induction n arbitrary: res)
  case 0
  then show ?case
    by (subst generateEvenDistribution_bool_loop.simps) simp
next
  case (Suc n)
  let ?row = "tr - int (Suc n)"
  let ?placed = "expected_at ts tr ?row"
  let ?expected = "expected_at ts tr (?row + 1)"
  have next_row: "?row + 1 = tr - int n"
    by simp
  have step: "?expected - ?placed \<in> {0, 1}"
    by (rule assms)
  have "generateEvenDistribution_bool_loop ts tr ?row ?placed res =
        generateEvenDistribution_bool_loop ts tr (?row + 1) ?expected (res @ [?expected > ?placed])"
  proof (cases "?expected > ?placed")
    case True
    with step have "?placed + 1 = ?expected"
      by auto
    with True Suc.prems show ?thesis
      by (subst generateEvenDistribution_bool_loop.simps) (simp add: expected_at_def Let_def)
  next
    case False
    with step have "?placed = ?expected"
      by auto
    with False Suc.prems show ?thesis
      by (subst generateEvenDistribution_bool_loop.simps) (simp add: expected_at_def Let_def)
  qed
  also have "\<dots> = (res @ [?expected > ?placed]) @
      map (\<lambda>k. expected_at ts tr (tr - int n + int k + 1) > expected_at ts tr (tr - int n + int k)) [0..<n]"
    unfolding next_row using Suc.prems by (intro Suc.IH) simp
  also have "\<dots> = res @ map (\<lambda>k. expected_at ts tr (?row + int k + 1) > expected_at ts tr (?row + int k)) [0..<Suc n]"
    by (simp only: map_upt_Suc) (simp add: algebra_simps)
  finally show ?case .
qed

lemma generateEvenDistribution_bool_closed:
  assumes "0 < tr" and "0 \<le> ts" and "ts \<le> tr"
  shows "generateEvenDistribution_bool ts tr =
     map (\<lambda>k. expected_at ts tr (int k + 1) > expected_at ts tr (int k)) [0..<nat tr]"
proof -
  have "generateEvenDistribution_bool_loop ts tr (tr - int (nat tr)) (expected_at ts tr (tr - int (nat tr))) [] =
     [] @ map (\<lambda>k. expected_at ts tr (tr - int (nat tr) + int k + 1)
                 > expected_at ts tr (tr - int (nat tr) + int k)) [0..<nat tr]"
    using assms by (intro generateEvenDistribution_bool_loop_closed expected_at_unit_steps) simp_all
  then show ?thesis
    using assms by (simp add: generateEvenDistribution_bool_def)
qed

lemma length_generateEvenDistribution_bool_loop:
  "length (generateEvenDistribution_bool_loop ts tr row placed res) = length res + nat (tr - row)"
proof (induction ts tr row placed res rule: generateEvenDistribution_bool_loop.induct)
  case (1 ts tr row placed res)
  show ?case
  proof (cases "row < tr")
    case False
    then show ?thesis
      by (subst generateEvenDistribution_bool_loop.simps) simp
  next
    case True
    then have "nat (tr - row) = Suc (nat (tr - (row + 1)))"
      by simp
    with True "1.IH" show ?thesis
      by (subst generateEvenDistribution_bool_loop.simps) (simp add: Let_def)
  qed
qed

lemma length_generateEvenDistribution_bool:
  "length (generateEvenDistribution_bool ts tr) = nat tr"
  by (simp add: generateEvenDistribution_bool_def length_generateEvenDistribution_bool_loop)

lemma sum_list_of_bool_le_length: "sum_list (map of_bool bs) \<le> int (length bs)"
  by (induction bs) simp_all

lemma sum_list_of_bool_filter: "sum_list (map of_bool bs) = int (length (filter (\<lambda>b. b) bs))"
  by (induction bs) simp_all

text \<open>
  Claim C10. For integers \<open>0 \<le> items \<le> slots\<close> with \<open>slots > 0\<close>, the boolean generator and
  the integer-count generator give the same placement, reading \<open>true\<close> as 1 and \<open>false\<close>
  as 0; in particular the boolean generator places exactly \<open>items\<close> \<open>true\<close> entries. For
  \<open>items > slots\<close> the two differ: the boolean generator holds at most one stitch per slot.
\<close>

theorem placement_representations:
  assumes "0 < slots"
  shows "(0 \<le> items \<and> items \<le> slots \<longrightarrow>
            map of_bool (generateEvenDistribution_bool items slots)
              = generateEvenDistribution items slots \<and>
            int (length (filter (\<lambda>b. b) (generateEvenDistribution_bool items slots))) = items) \<and>
         (slots < items \<longrightarrow>
            map of_bool (generateEvenDistribution_bool items slots)
              \<noteq> generateEvenDistribution items slots)"
proof (intro conjI impI)
  assume range: "0 \<le> items \<and> items \<le> slots"
  have "of_bool (expected_at items slots (k + 1) > expected_at items slots k)
      = expected_at items slots (k + 1) - expected_at items slots k" for k
    using expected_at_unit_steps [of slots items k] assms range by auto
  then show same: "map of_bool (generateEvenDistribution_bool items slots)
      = generateEvenDistribution items slots"
    using assms range
    by (simp add: generateEvenDistribution_bool_closed generateEvenDistribution_closed)
  have "int (length (filter (\<lambda>b. b) (generateEvenDistribution_bool items slots)))
      = sum_list (map of_bool (generateEvenDistribution_bool items slots))"
    by (simp only: sum_list_of_bool_filter)
  also have "\<dots> = items"
    using assms by (simp only: same sum_list_generateEvenDistribution)
  finally show "int (length (filter (\<lambda>b. b) (generateEvenDistribution_bool items slots))) = items" .
next
  assume more: "slots < items"
  have "sum_list (map of_bool (generateEvenDistribution_bool items slots)) \<le> slots"
    using sum_list_of_bool_le_length [of "generateEvenDistribution_bool items slots"] assms
    by (simp add: length_generateEvenDistribution_bool)
  moreover have "sum_list (generateEvenDistribution items slots) = items"
    using assms by (rule sum_list_generateEvenDistribution)
  ultimately show "map of_bool (generateEvenDistribution_bool items slots)
      \<noteq> generateEvenDistribution items slots"
    using more by auto
qed

theorem placement_representations_witness:
  "(0::int) < 8 \<and> (0::int) \<le> 3 \<and> (3::int) \<le> 8 \<and>
   map of_bool (generateEvenDistribution_bool 3 8) = generateEvenDistribution 3 8 \<and>
   int (length (filter (\<lambda>b. b) (generateEvenDistribution_bool 3 8))) = 3 \<and>
   (0::int) < 3 \<and> (3::int) < 8 \<and>
   map of_bool (generateEvenDistribution_bool 8 3) \<noteq> generateEvenDistribution 8 3"
proof -
  have "(0::int) < 8" and "(0::int) \<le> 3 \<and> (3::int) \<le> 8" and "(0::int) < 3" and "(3::int) < 8"
    by simp_all
  with placement_representations [where slots = 8 and items = 3]
    placement_representations [where slots = 3 and items = 8]
  show ?thesis
    by blast
qed

section \<open>The row-count guard of the pick-up handler\<close>






end
